theory Spec2Isabelle
  imports Main
begin

unbundle bit_operations_syntax

section \<open>Values, errors and the library the script imports\<close>

text \<open>
  The script \<^verbatim>\<open>scripts/gen_metadata.py\<close> reads workspace files and assembles a JSON
  document. Python exceptions are values of the type \<open>error\<close>; a function that may raise
  returns \<open>error + 'a\<close>, with \<open>Inl\<close> for the exception.
\<close>

datatype error =
    JSONDecodeError
  | RecursionError
  | ValueError
  | BadGzipFile
  | EOFError
  | UnicodeDecodeError
  | TypeError
  | FileNotFoundError
  | NotADirectoryError
  | NotImplementedError

text \<open>
  A Python float is opaque here: the script only passes the values it has parsed through.
\<close>

typedecl pyfloat

text \<open>
  What \<^verbatim>\<open>json.loads\<close> returns. A \<^verbatim>\<open>dict\<close> keeps its keys in insertion order, so an
  object is an association list with distinct keys in that order.
\<close>

datatype json =
    JNull
  | JBool bool
  | JInt int
  | JFloat pyfloat
  | JString string
  | JArray "json list"
  | JObject "(string \<times> json) list"

text \<open>
  File contents are bytes, written as a \<open>string\<close> (a \<open>char\<close> is a byte). Decoded text
  is a \<open>string\<close> too, one \<open>char\<close> for each character, which covers the characters up
  to U+00FF.

  The functions of the standard library that the script calls on file contents are not
  code of the script; they are taken as a parameter:
  \<^item> \<open>json_loads\<close> is \<^verbatim>\<open>json.loads\<close> on a \<^verbatim>\<open>str\<close>;
  \<^item> \<open>gzip_decompress\<close> is the byte stream \<^verbatim>\<open>gzip.open\<close> reads from a file's bytes;
  \<^item> \<open>utf8_decode\<close> is the decoder of \<^verbatim>\<open>open(path, 'r', encoding='utf-8')\<close>;
  \<^item> \<open>locale_decode\<close> is the decoder of a text stream opened with no \<^verbatim>\<open>encoding\<close>
    argument, as \<^verbatim>\<open>gzip.open(path, 'rt')\<close> is: the preferred encoding of the host.
\<close>

record lib =
  json_loads :: "string \<Rightarrow> error + json"
  gzip_decompress :: "string \<Rightarrow> error + string"
  utf8_decode :: "string \<Rightarrow> error + string"
  locale_decode :: "string \<Rightarrow> error + string"

section \<open>Text streams and strings\<close>

text \<open>
  Both text streams are opened with the default \<^verbatim>\<open>newline=None\<close>: on reading,
  \<^verbatim>\<open>\r\n\<close> and a lone \<^verbatim>\<open>\r\<close> become \<^verbatim>\<open>\n\<close>.
\<close>

fun universal_newlines :: "string \<Rightarrow> string" where
  "universal_newlines [] = []"
| "universal_newlines [c] = (if c = CHR 0x0D then [CHR 0x0A] else [c])"
| "universal_newlines (c # d # s) =
     (if c = CHR 0x0D then
        (if d = CHR 0x0A then CHR 0x0A # universal_newlines s
         else CHR 0x0A # universal_newlines (d # s))
      else c # universal_newlines (d # s))"

text \<open>
  \<^verbatim>\<open>f.readline()\<close>: the text up to and including the next newline, or all that is left;
  the second component is the rest of the stream.
\<close>

fun readline :: "string \<Rightarrow> string \<times> string" where
  "readline [] = ([], [])"
| "readline (c # s) =
     (if c = CHR 0x0A then ([c], s)
      else (case readline s of (l, r) \<Rightarrow> (c # l, r)))"

text \<open>
  \<^verbatim>\<open>str.strip()\<close> removes leading and trailing whitespace, as \<^verbatim>\<open>str.isspace\<close> has it.
\<close>

definition isspace :: "char \<Rightarrow> bool" where
  "isspace c =
     (let n = (of_char c :: nat)
      in (9 \<le> n \<and> n \<le> 13) \<or> (28 \<le> n \<and> n \<le> 32) \<or> n = 133 \<or> n = 160)"

definition strip :: "string \<Rightarrow> string" where
  "strip s = rev (dropWhile isspace (rev (dropWhile isspace s)))"

definition endswith :: "string \<Rightarrow> string \<Rightarrow> bool" where
  "endswith s suf = (length suf \<le> length s \<and> drop (length s - length suf) s = suf)"

text \<open>\<^verbatim>\<open>os.path.join\<close> with two arguments and \<^verbatim>\<open>os.path.basename\<close>, on POSIX.\<close>

definition os_path_join :: "string \<Rightarrow> string \<Rightarrow> string" where
  "os_path_join a b =
     (if take 1 b = ''/'' then b
      else if a = [] \<or> endswith a ''/'' then a @ b
      else a @ ''/'' @ b)"

definition os_path_basename :: "string \<Rightarrow> string" where
  "os_path_basename p = rev (takeWhile (\<lambda>c. c \<noteq> CHR ''/'') (rev p))"

section \<open>The header reader: \<^verbatim>\<open>read_workspace\<close>\<close>

text \<open>
  \<^verbatim>\<open>open_func\<close>: the first two bytes choose the stream. The argument is the content of
  the file at \<^verbatim>\<open>path\<close>; the path itself is used for nothing but opening the file.
  The result is the whole text of the stream. (The text layer decodes in blocks; the model
  decodes the file at once, so a file with an undecodable byte anywhere fails.)
\<close>

definition open_func :: "lib \<Rightarrow> string \<Rightarrow> error + string" where
  "open_func L bytes =
     (let magic_number = take 2 bytes in
      if magic_number = [CHR 0x1F, CHR 0x8B] then
        (case gzip_decompress L bytes of
           Inl e \<Rightarrow> Inl e
         | Inr raw \<Rightarrow>
             (case locale_decode L raw of
                Inl e \<Rightarrow> Inl e
              | Inr s \<Rightarrow> Inr (universal_newlines s)))
      else
        (case utf8_decode L bytes of
           Inl e \<Rightarrow> Inl e
         | Inr s \<Rightarrow> Inr (universal_newlines s)))"

text \<open>
  The body of the \<^verbatim>\<open>try\<close>: two lines are read, the second is parsed.
  \<open>readline\<close> and \<open>strip\<close> cannot raise; \<open>json_loads\<close> can.
\<close>

definition try_header :: "lib \<Rightarrow> string \<Rightarrow> error + string \<times> json" where
  "try_header L f =
     (case readline f of (l1, f1) \<Rightarrow>
        let version = strip l1 in
        case readline f1 of (l2, f2) \<Rightarrow>
          (case json_loads L l2 of
             Inl e \<Rightarrow> Inl e
           | Inr metadata \<Rightarrow> Inr (version, metadata)))"

text \<open>
  The handler of \<^verbatim>\<open>except json.decoder.JSONDecodeError\<close>: after \<^verbatim>\<open>f.seek(0)\<close> the
  whole stream is parsed, unless only the metadata is wanted.
\<close>

definition legacy_read :: "lib \<Rightarrow> string \<Rightarrow> bool \<Rightarrow> error + string \<times> json \<times> json option" where
  "legacy_read L f metadata_only =
     (let version = ''0.9.0''; metadata = JObject [] in
      if metadata_only then Inr (version, metadata, None)
      else
        (case json_loads L f of
           Inl e \<Rightarrow> Inl e
         | Inr data \<Rightarrow> Inr (version, metadata, Some data)))"

text \<open>
  The code after the \<^verbatim>\<open>try\<close>: \<^verbatim>\<open>f.seek(0)\<close>, the two lines are read and parsed again,
  and the third line is parsed unless only the metadata is wanted.
\<close>

definition versioned_read :: "lib \<Rightarrow> string \<Rightarrow> bool \<Rightarrow> error + string \<times> json \<times> json option" where
  "versioned_read L f metadata_only =
     (case readline f of (l1, f1) \<Rightarrow>
        let version = strip l1 in
        case readline f1 of (l2, f2) \<Rightarrow>
          (case json_loads L l2 of
             Inl e \<Rightarrow> Inl e
           | Inr metadata \<Rightarrow>
               if metadata_only then Inr (version, metadata, None)
               else
                 (case readline f2 of (l3, f3) \<Rightarrow>
                    (case json_loads L l3 of
                       Inl e \<Rightarrow> Inl e
                     | Inr data \<Rightarrow> Inr (version, metadata, Some data)))))"

text \<open>
  The \<^verbatim>\<open>with\<close> block on the open stream: only \<^verbatim>\<open>JSONDecodeError\<close> is caught.
  What decompressing or decoding raises is raised by the first read, inside the
  \<^verbatim>\<open>try\<close>; it is no \<^verbatim>\<open>JSONDecodeError\<close>, so it is raised to the caller.
\<close>

definition read_stream :: "lib \<Rightarrow> string \<Rightarrow> bool \<Rightarrow> error + string \<times> json \<times> json option" where
  "read_stream L f metadata_only =
     (case try_header L f of
        Inl JSONDecodeError \<Rightarrow> legacy_read L f metadata_only
      | Inl e \<Rightarrow> Inl e
      | Inr _ \<Rightarrow> versioned_read L f metadata_only)"

definition read_workspace :: "lib \<Rightarrow> string \<Rightarrow> bool \<Rightarrow> error + string \<times> json \<times> json option" where
  "read_workspace L bytes metadata_only =
     (case open_func L bytes of
        Inl e \<Rightarrow> Inl e
      | Inr f \<Rightarrow> read_stream L f metadata_only)"

section \<open>The tree walker: \<^verbatim>\<open>process_dir\<close>\<close>

text \<open>
  A directory lists its children in the order \<^verbatim>\<open>os.listdir\<close> gives them. \<open>Other\<close> is
  a child that is neither a directory nor a regular file for \<^verbatim>\<open>os.path.isdir\<close> and
  \<^verbatim>\<open>os.path.isfile\<close> (a socket, a dangling link).
\<close>

datatype fsnode =
    File string
  | Dir "(string \<times> fsnode) list"
  | Other

text \<open>The calls the walker makes, with the path each one is given.\<close>

datatype event = Listdir string | ReadWorkspace string

text \<open>
  \<^verbatim>\<open>d[k] = v\<close> on a \<^verbatim>\<open>dict\<close>: an existing key keeps its place, a new key goes last.
  \<^verbatim>\<open>metadata['name'] = p\<close> on anything that is not a \<^verbatim>\<open>dict\<close> raises
  \<^verbatim>\<open>TypeError\<close>.
\<close>

fun dict_set :: "string \<Rightarrow> json \<Rightarrow> (string \<times> json) list \<Rightarrow> (string \<times> json) list" where
  "dict_set k v [] = [(k, v)]"
| "dict_set k v ((k', v') # kvs) =
     (if k' = k then (k, v) # kvs else (k', v') # dict_set k v kvs)"

fun setitem :: "json \<Rightarrow> string \<Rightarrow> json \<Rightarrow> error + json" where
  "setitem (JObject kvs) k v = Inr (JObject (dict_set k v kvs))"
| "setitem _ k v = Inl TypeError"

text \<open>
  \<open>process_dir L path children log\<close> is \<^verbatim>\<open>process_dir(path)\<close> on a directory with the
  given children; \<open>dir_loop\<close> is its \<^verbatim>\<open>for\<close> loop, with the lists \<^verbatim>\<open>folders\<close> and
  \<^verbatim>\<open>files\<close> built so far. The log of calls is threaded through.
\<close>

fun process_dir ::
    "lib \<Rightarrow> string \<Rightarrow> (string \<times> fsnode) list \<Rightarrow> event list \<Rightarrow> event list \<times> (error + json)"
  and dir_loop ::
    "lib \<Rightarrow> string \<Rightarrow> (string \<times> fsnode) list \<Rightarrow> json list \<Rightarrow> json list \<Rightarrow> event list
       \<Rightarrow> event list \<times> (error + json list \<times> json list)"
where
  "process_dir L path children log =
     (case dir_loop L path children [] [] (log @ [Listdir path]) of
        (log', Inl e) \<Rightarrow> (log', Inl e)
      | (log', Inr (folders, files)) \<Rightarrow>
          (log', Inr (JObject [(''name'', JString (os_path_basename path)),
                               (''files'', JArray files),
                               (''dirs'', JArray folders)])))"
| "dir_loop L path [] folders files log = (log, Inr (folders, files))"
| "dir_loop L path ((p, node) # rest) folders files log =
     (let full_path = os_path_join path p in
      case node of
        Dir children \<Rightarrow>
          (case process_dir L full_path children log of
             (log', Inl e) \<Rightarrow> (log', Inl e)
           | (log', Inr d) \<Rightarrow> dir_loop L path rest (folders @ [d]) files log')
      | File bytes \<Rightarrow>
          if endswith full_path ''.grapycal'' then
            (case read_workspace L bytes True of
               Inl e \<Rightarrow> (log @ [ReadWorkspace full_path], Inl e)
             | Inr (version, metadata, _) \<Rightarrow>
                 (case setitem metadata ''name'' (JString p) of
                    Inl e \<Rightarrow> (log @ [ReadWorkspace full_path], Inl e)
                  | Inr entry \<Rightarrow>
                      dir_loop L path rest folders (files @ [entry])
                        (log @ [ReadWorkspace full_path])))
          else dir_loop L path rest folders files log
      | Other \<Rightarrow> dir_loop L path rest folders files log)"

text \<open>
  The walk from an empty log: the value \<^verbatim>\<open>process_dir(path)\<close> returns or the exception it
  raises, and the calls it has made.
\<close>

definition scan_directory :: "lib \<Rightarrow> string \<Rightarrow> (string \<times> fsnode) list \<Rightarrow> error + json" where
  "scan_directory L path children = snd (process_dir L path children [])"

definition scan_calls :: "lib \<Rightarrow> string \<Rightarrow> (string \<times> fsnode) list \<Rightarrow> event list" where
  "scan_calls L path children = fst (process_dir L path children [])"

text \<open>
  The loop alone, from empty lists and an empty log; and how the lists a loop has built
  are extended by what the rest of the loop returns.
\<close>

definition loop_result ::
    "lib \<Rightarrow> string \<Rightarrow> (string \<times> fsnode) list \<Rightarrow> error + json list \<times> json list" where
  "loop_result L path entries = snd (dir_loop L path entries [] [] [])"

definition loop_calls :: "lib \<Rightarrow> string \<Rightarrow> (string \<times> fsnode) list \<Rightarrow> event list" where
  "loop_calls L path entries = fst (dir_loop L path entries [] [] [])"

fun add_lists :: "json list \<Rightarrow> json list \<Rightarrow> error + json list \<times> json list
    \<Rightarrow> error + json list \<times> json list" where
  "add_lists folders files (Inl e) = Inl e"
| "add_lists folders files (Inr (ds, fs)) = Inr (folders @ ds, files @ fs)"

section \<open>The assembler: \<^verbatim>\<open>main\<close>\<close>

text \<open>
  What \<^verbatim>\<open>main\<close> sees and changes: the project root (the parent of the script's
  directory), what \<^verbatim>\<open>os.listdir\<close> gives for \<^verbatim>\<open>root/files\<close> (the children, or the error
  it raises), and the document held by \<^verbatim>\<open>root/metadata.json\<close>, if the file exists. The
  document is kept as the JSON value that \<^verbatim>\<open>json.dump\<close> serialises.
\<close>

record world =
  project_root :: string
  workspaces :: "error + (string \<times> fsnode) list"
  metadata_file :: "json option"

definition main :: "lib \<Rightarrow> world \<Rightarrow> (error + unit) \<times> world" where
  "main L w =
     (let workspaces_path = os_path_join (project_root w) ''files'' in
      case workspaces w of
        Inl e \<Rightarrow> (Inl e, w)
      | Inr children \<Rightarrow>
          (case scan_directory L workspaces_path children of
             Inl e \<Rightarrow> (Inl e, w)
           | Inr metadata \<Rightarrow> (Inr (), w\<lparr>metadata_file := Some metadata\<rparr>)))"

section \<open>What a walk is expected to visit\<close>

text \<open>The second line of a stream.\<close>

definition second_line :: "string \<Rightarrow> string" where
  "second_line f = fst (readline (snd (readline f)))"

text \<open>
  The children of a directory that are directories, and those that are regular files with
  a name ending in \<^verbatim>\<open>.grapycal\<close>, each in listing order.
\<close>

fun subdirs :: "(string \<times> fsnode) list \<Rightarrow> (string \<times> (string \<times> fsnode) list) list" where
  "subdirs [] = []"
| "subdirs ((p, Dir children) # rest) = (p, children) # subdirs rest"
| "subdirs ((p, File bytes) # rest) = subdirs rest"
| "subdirs ((p, Other) # rest) = subdirs rest"

fun workspace_files :: "(string \<times> fsnode) list \<Rightarrow> (string \<times> string) list" where
  "workspace_files [] = []"
| "workspace_files ((p, File bytes) # rest) =
     (if endswith p ''.grapycal'' then (p, bytes) # workspace_files rest
      else workspace_files rest)"
| "workspace_files ((p, Dir children) # rest) = workspace_files rest"
| "workspace_files ((p, Other) # rest) = workspace_files rest"

text \<open>A child that the loop does something with.\<close>

fun relevant :: "string \<times> fsnode \<Rightarrow> bool" where
  "relevant (p, Dir children) = True"
| "relevant (p, File bytes) = endswith p ''.grapycal''"
| "relevant (p, Other) = False"

text \<open>
  The error the loop body raises on one workspace file, if any: that of the header reader,
  or the \<^verbatim>\<open>TypeError\<close> of the assignment to a header that is not a \<^verbatim>\<open>dict\<close>.
\<close>

definition entry_error :: "lib \<Rightarrow> string \<Rightarrow> string \<Rightarrow> error option" where
  "entry_error L bytes p =
     (case read_workspace L bytes True of
        Inl e \<Rightarrow> Some e
      | Inr (version, metadata, _) \<Rightarrow>
          (case setitem metadata ''name'' (JString p) of
             Inl e \<Rightarrow> Some e
           | Inr _ \<Rightarrow> None))"







section \<open>A library to run examples with\<close>

text \<open>
  Concrete functions to put in the place of the library parameter, so that the script can
  be evaluated on example files. Each one implements a part of what the Python function
  does and raises \<^verbatim>\<open>NotImplementedError\<close> outside that part; on the part it
  implements (for JSON: texts nested less deeply than the recursion limit of the
  interpreter) it returns what the Python function returns.
\<close>

subsection \<open>JSON without fractions, exponents and escapes\<close>

definition json_ws :: "char \<Rightarrow> bool" where
  "json_ws c = (c = CHR 0x20 \<or> c = CHR 0x09 \<or> c = CHR 0x0A \<or> c = CHR 0x0D)"

definition skip_ws :: "string \<Rightarrow> string" where
  "skip_ws s = dropWhile json_ws s"

text \<open>
  The text after an opening quote, up to the closing one. A control character is an error;
  a backslash starts an escape, which is not implemented.
\<close>

fun scan_string :: "string \<Rightarrow> error + string \<times> string" where
  "scan_string [] = Inl JSONDecodeError"
| "scan_string (c # s) =
     (if c = CHR 0x22 then Inr ([], s)
      else if c = CHR 0x5C then Inl NotImplementedError
      else if (of_char c :: nat) < 32 then Inl JSONDecodeError
      else (case scan_string s of
              Inl e \<Rightarrow> Inl e
            | Inr (str, r) \<Rightarrow> Inr (c # str, r)))"

definition is_digit :: "char \<Rightarrow> bool" where
  "is_digit c = (48 \<le> (of_char c :: nat) \<and> (of_char c :: nat) \<le> 57)"

definition int_of_digits :: "string \<Rightarrow> int" where
  "int_of_digits ds = foldl (\<lambda>a d. 10 * a + (of_char d - 48)) 0 ds"

text \<open>Whether a fraction or an exponent follows the integer part of a number.\<close>

fun is_float_tail :: "string \<Rightarrow> bool" where
  "is_float_tail (c # d # e # s) =
     ((c = CHR ''.'' \<and> is_digit d)
      \<or> ((c = CHR ''e'' \<or> c = CHR ''E'')
          \<and> (is_digit d \<or> ((d = CHR ''+'' \<or> d = CHR ''-'') \<and> is_digit e))))"
| "is_float_tail [c, d] = ((c = CHR ''.'' \<or> c = CHR ''e'' \<or> c = CHR ''E'') \<and> is_digit d)"
| "is_float_tail _ = False"

text \<open>
  An integer: an optional sign, then \<^verbatim>\<open>0\<close> or a digit string that does not start with
  \<^verbatim>\<open>0\<close>. Floats, and integers beyond the length limit of the conversion, are not
  implemented.
\<close>

definition scan_number :: "string \<Rightarrow> error + json \<times> string" where
  "scan_number s =
     (let neg = (take 1 s = ''-''); t = (if neg then drop 1 s else s) in
      case t of
        [] \<Rightarrow> Inl JSONDecodeError
      | d # t' \<Rightarrow>
          if \<not> is_digit d then Inl JSONDecodeError
          else
            let ds = (if d = CHR ''0'' then [d] else takeWhile is_digit t);
                r = drop (length ds) t
            in if is_float_tail r \<or> 4300 < length ds then Inl NotImplementedError
               else Inr (JInt ((if neg then - 1 else 1) * int_of_digits ds), r))"

text \<open>
  The scanner, by recursive descent. The first argument bounds the number of nested calls;
  \<open>loads\<close> starts it above the length of the text, and every call consumes a character.
  \<open>scan_array\<close> starts at an element, \<open>scan_object\<close> at the opening quote of a key. A key
  that occurs twice keeps its first place and its last value, as in a \<^verbatim>\<open>dict\<close>.
\<close>

fun scan_value :: "nat \<Rightarrow> string \<Rightarrow> error + json \<times> string"
  and scan_array :: "nat \<Rightarrow> string \<Rightarrow> json list \<Rightarrow> error + json list \<times> string"
  and scan_object ::
    "nat \<Rightarrow> string \<Rightarrow> (string \<times> json) list \<Rightarrow> error + (string \<times> json) list \<times> string"
where
  "scan_value 0 s = Inl RecursionError"
| "scan_value (Suc n) s =
     (case s of
        [] \<Rightarrow> Inl JSONDecodeError
      | c # r \<Rightarrow>
          if c = CHR 0x22 then
            (case scan_string r of
               Inl e \<Rightarrow> Inl e
             | Inr (str, r') \<Rightarrow> Inr (JString str, r'))
          else if c = CHR ''{'' then
            (case skip_ws r of
               [] \<Rightarrow> Inl JSONDecodeError
             | d # r' \<Rightarrow>
                 if d = CHR ''}'' then Inr (JObject [], r')
                 else
                   (case scan_object n (d # r') [] of
                      Inl e \<Rightarrow> Inl e
                    | Inr (kvs, r'') \<Rightarrow> Inr (JObject kvs, r'')))
          else if c = CHR ''['' then
            (case skip_ws r of
               [] \<Rightarrow> Inl JSONDecodeError
             | d # r' \<Rightarrow>
                 if d = CHR '']'' then Inr (JArray [], r')
                 else
                   (case scan_array n (d # r') [] of
                      Inl e \<Rightarrow> Inl e
                    | Inr (vs, r'') \<Rightarrow> Inr (JArray vs, r'')))
          else if take 4 s = ''null'' then Inr (JNull, drop 4 s)
          else if take 4 s = ''true'' then Inr (JBool True, drop 4 s)
          else if take 5 s = ''false'' then Inr (JBool False, drop 5 s)
          else if take 3 s = ''NaN'' \<or> take 8 s = ''Infinity'' \<or> take 9 s = ''-Infinity''
            then Inl NotImplementedError
          else scan_number s)"
| "scan_array 0 s acc = Inl RecursionError"
| "scan_array (Suc n) s acc =
     (case scan_value n s of
        Inl e \<Rightarrow> Inl e
      | Inr (v, r) \<Rightarrow>
          (case skip_ws r of
             [] \<Rightarrow> Inl JSONDecodeError
           | c # r' \<Rightarrow>
               if c = CHR '']'' then Inr (acc @ [v], r')
               else if c = CHR '','' then scan_array n (skip_ws r') (acc @ [v])
               else Inl JSONDecodeError))"
| "scan_object 0 s acc = Inl RecursionError"
| "scan_object (Suc n) s acc =
     (case s of
        [] \<Rightarrow> Inl JSONDecodeError
      | q # r0 \<Rightarrow>
          if q \<noteq> CHR 0x22 then Inl JSONDecodeError
          else
            (case scan_string r0 of
               Inl e \<Rightarrow> Inl e
             | Inr (key, r1) \<Rightarrow>
                 (case skip_ws r1 of
                    [] \<Rightarrow> Inl JSONDecodeError
                  | c # r2 \<Rightarrow>
                      if c \<noteq> CHR '':'' then Inl JSONDecodeError
                      else
                        (case scan_value n (skip_ws r2) of
                           Inl e \<Rightarrow> Inl e
                         | Inr (v, r3) \<Rightarrow>
                             (case skip_ws r3 of
                                [] \<Rightarrow> Inl JSONDecodeError
                              | d # r4 \<Rightarrow>
                                  if d = CHR ''}'' then Inr (dict_set key v acc, r4)
                                  else if d = CHR '','' then
                                    scan_object n (skip_ws r4) (dict_set key v acc)
                                  else Inl JSONDecodeError)))))"

definition loads :: "string \<Rightarrow> error + json" where
  "loads s =
     (case scan_value (Suc (length s)) (skip_ws s) of
        Inl e \<Rightarrow> Inl e
      | Inr (v, r) \<Rightarrow> if skip_ws r = [] then Inr v else Inl JSONDecodeError)"

subsection \<open>Gzip members with one stored block\<close>

text \<open>
  A gzip file made of the ten-byte header with no optional field, one final stored
  (uncompressed) deflate block, and the trailer with the CRC-32 and the length of the data.
\<close>

definition le_nat :: "string \<Rightarrow> nat" where
  "le_nat bs = foldr (\<lambda>b a. of_char b + 256 * a) bs 0"

definition crc_step :: "nat \<Rightarrow> nat" where
  "crc_step c = (if odd c then (c div 2) XOR 0xEDB88320 else c div 2)"

definition crc_byte :: "nat \<Rightarrow> char \<Rightarrow> nat" where
  "crc_byte c b =
     crc_step (crc_step (crc_step (crc_step (crc_step (crc_step (crc_step (crc_step
       (c XOR of_char b))))))))"

definition crc32 :: "string \<Rightarrow> nat" where
  "crc32 bs = foldl crc_byte 0xFFFFFFFF bs XOR 0xFFFFFFFF"

definition gunzip_stored :: "string \<Rightarrow> error + string" where
  "gunzip_stored bytes =
     (let hdr = take 10 bytes;
          blk = take 5 (drop 10 bytes);
          len = le_nat (take 2 (drop 1 blk));
          nlen = le_nat (drop 3 blk);
          data = take len (drop 15 bytes);
          trailer = drop (15 + len) bytes
      in if length hdr = 10 \<and> take 4 hdr = [CHR 0x1F, CHR 0x8B, CHR 0x08, CHR 0x00]
            \<and> length blk = 5 \<and> take 1 blk = [CHR 0x01] \<and> len + nlen = 65535
            \<and> length data = len \<and> length trailer = 8
            \<and> le_nat (take 4 trailer) = crc32 data \<and> le_nat (drop 4 trailer) = len
         then Inr data
         else Inl NotImplementedError)"

subsection \<open>Decoders\<close>

text \<open>
  UTF-8 for the characters up to U+00FF: a byte below \<^verbatim>\<open>0x80\<close> is itself; \<^verbatim>\<open>0xC2\<close> and
  \<^verbatim>\<open>0xC3\<close> start a sequence of two bytes. The lead bytes \<^verbatim>\<open>0xC4\<close> to \<^verbatim>\<open>0xF4\<close> start
  characters that the text type does not have; any other byte is invalid.
\<close>

fun utf8_latin :: "string \<Rightarrow> error + string" where
  "utf8_latin [] = Inr []"
| "utf8_latin [c] =
     (if (of_char c :: nat) < 128 then Inr [c]
      else if 196 \<le> (of_char c :: nat) \<and> (of_char c :: nat) \<le> 244 then Inl NotImplementedError
      else Inl UnicodeDecodeError)"
| "utf8_latin (c # d # s) =
     (let n = (of_char c :: nat) in
      if n < 128 then
        (case utf8_latin (d # s) of Inl e \<Rightarrow> Inl e | Inr t \<Rightarrow> Inr (c # t))
      else if n = 194 \<or> n = 195 then
        (case d of Char b0 b1 b2 b3 b4 b5 b6 b7 \<Rightarrow>
           if b7 \<and> \<not> b6 then
             (case utf8_latin s of
                Inl e \<Rightarrow> Inl e
              | Inr t \<Rightarrow> Inr (Char b0 b1 b2 b3 b4 b5 (n = 195) True # t))
           else Inl UnicodeDecodeError)
      else if 196 \<le> n \<and> n \<le> 244 then Inl NotImplementedError
      else Inl UnicodeDecodeError)"

text \<open>ISO-8859-1: every byte is the character with its number.\<close>

definition latin1_decode :: "string \<Rightarrow> error + string" where
  "latin1_decode bytes = Inr bytes"

subsection \<open>Two hosts\<close>

text \<open>
  A host whose preferred encoding is UTF-8, and one whose preferred encoding is
  ISO-8859-1.
\<close>

definition utf8_host :: lib where
  "utf8_host =
     \<lparr>json_loads = loads, gzip_decompress = gunzip_stored,
      utf8_decode = utf8_latin, locale_decode = utf8_latin\<rparr>"

definition latin1_host :: lib where
  "latin1_host =
     \<lparr>json_loads = loads, gzip_decompress = gunzip_stored,
      utf8_decode = utf8_latin, locale_decode = latin1_decode\<rparr>"

section \<open>Example files and trees\<close>

text \<open>
  The versioned file and the legacy file of the scenarios; a JSON document cut off in the
  middle; a file saved as UTF-16, which starts with the bytes \<^verbatim>\<open>FF FE\<close> and is not
  UTF-8; and two directories.
\<close>

definition versioned_file :: string where
  \<open>versioned_file = ''0.9.0\<newline>{"extensions":["grapycal_torch"]}\<newline>{}''\<close>

definition legacy_file :: string where
  \<open>legacy_file = ''{"foo":1}''\<close>

definition truncated_file :: string where
  \<open>truncated_file = ''{"nodes": [1, 2''\<close>

definition utf16_file :: string where
  "utf16_file = [CHR 0xFF, CHR 0xFE, CHR ''{'', CHR 0x00, CHR ''}'', CHR 0x00]"

definition ws_tree :: "(string \<times> fsnode) list" where
  "ws_tree =
     [(''a.grapycal'', File versioned_file),
      (''notes.txt'', File ''hello''),
      (''folder1'', Dir [(''b.grapycal'', File legacy_file)]),
      (''pipe'', Other)]"

definition damaged_tree :: "(string \<times> fsnode) list" where
  "damaged_tree =
     [(''ok.grapycal'', File versioned_file),
      (''sub'', Dir [(''bad.grapycal'', File utf16_file)]),
      (''later.grapycal'', File legacy_file)]"

text \<open>
  Gzip files, each one member with a stored block: the legacy file; the text of an array
  written on three lines, \<^verbatim>\<open>[\<close>, \<^verbatim>\<open>1\<close> and \<^verbatim>\<open>]\<close>; and a versioned file whose header
  names an author, \<^verbatim>\<open>e\<close> with an acute accent, in UTF-8 (the bytes \<^verbatim>\<open>C3 A9\<close>). The last
  file also without compression.
\<close>

definition gz_legacy_file :: string where
  "gz_legacy_file =
     [CHR 0x1F, CHR 0x8B, CHR 0x08, CHR 0x00, CHR 0x00, CHR 0x00, CHR 0x00, CHR 0x00,
      CHR 0x00, CHR 0xFF, CHR 0x01, CHR 0x09, CHR 0x00, CHR 0xF6, CHR 0xFF, CHR 0x7B,
      CHR 0x22, CHR 0x66, CHR 0x6F, CHR 0x6F, CHR 0x22, CHR 0x3A, CHR 0x31, CHR 0x7D,
      CHR 0x81, CHR 0x05, CHR 0x24, CHR 0xEE, CHR 0x09, CHR 0x00, CHR 0x00, CHR 0x00]"

definition gz_array_file :: string where
  "gz_array_file =
     [CHR 0x1F, CHR 0x8B, CHR 0x08, CHR 0x00, CHR 0x00, CHR 0x00, CHR 0x00, CHR 0x00,
      CHR 0x00, CHR 0xFF, CHR 0x01, CHR 0x05, CHR 0x00, CHR 0xFA, CHR 0xFF, CHR 0x5B,
      CHR 0x0A, CHR 0x31, CHR 0x0A, CHR 0x5D, CHR 0xC7, CHR 0xA3, CHR 0xC0, CHR 0x2C,
      CHR 0x05, CHR 0x00, CHR 0x00, CHR 0x00]"

definition accent_file :: string where
  \<open>accent_file = ''0.9.0\<newline>{"author":"'' @ [CHR 0xC3, CHR 0xA9] @ ''"}\<newline>{}\<newline>''\<close>

definition gz_accent_file :: string where
  "gz_accent_file =
     [CHR 0x1F, CHR 0x8B, CHR 0x08, CHR 0x00, CHR 0x00, CHR 0x00, CHR 0x00, CHR 0x00,
      CHR 0x00, CHR 0xFF, CHR 0x01, CHR 0x19, CHR 0x00, CHR 0xE6, CHR 0xFF, CHR 0x30,
      CHR 0x2E, CHR 0x39, CHR 0x2E, CHR 0x30, CHR 0x0A, CHR 0x7B, CHR 0x22, CHR 0x61,
      CHR 0x75, CHR 0x74, CHR 0x68, CHR 0x6F, CHR 0x72, CHR 0x22, CHR 0x3A, CHR 0x22,
      CHR 0xC3, CHR 0xA9, CHR 0x22, CHR 0x7D, CHR 0x0A, CHR 0x7B, CHR 0x7D, CHR 0x0A,
      CHR 0x65, CHR 0xD9, CHR 0x9F, CHR 0xE9, CHR 0x19, CHR 0x00, CHR 0x00, CHR 0x00]"

section \<open>Evaluation rules\<close>

lemmas lib_eval =
  utf8_host_def latin1_host_def latin1_decode_def
  loads_def skip_ws_def json_ws_def scan_number_def is_digit_def int_of_digits_def
  gunzip_stored_def le_nat_def crc32_def crc_byte_def crc_step_def

lemmas script_eval =
  read_workspace_def open_func_def read_stream_def try_header_def legacy_read_def
  versioned_read_def strip_def isspace_def endswith_def os_path_join_def os_path_basename_def
  scan_directory_def scan_calls_def main_def entry_error_def second_line_def

lemmas walk_eval = process_dir.simps dir_loop.simps

lemmas example_eval =
  versioned_file_def legacy_file_def truncated_file_def utf16_file_def ws_tree_def
  damaged_tree_def gz_legacy_file_def gz_array_file_def accent_file_def gz_accent_file_def

section \<open>The header reader, by the second line\<close>

text \<open>
  Which way \<open>read_stream\<close> goes is decided by what the parser says about the second line.
\<close>

lemma try_header_eq:
  "try_header L f =
     (case json_loads L (second_line f) of
        Inl e \<Rightarrow> Inl e
      | Inr metadata \<Rightarrow> Inr (strip (fst (readline f)), metadata))"
  by (simp add: try_header_def second_line_def Let_def split: prod.splits sum.splits)


lemma read_stream_legacy:
  "json_loads L (second_line f) = Inl JSONDecodeError
     \<Longrightarrow> read_stream L f metadata_only = legacy_read L f metadata_only"
  by (simp add: read_stream_def try_header_eq)



lemma read_workspace_open:
  "open_func L bytes = Inr f
     \<Longrightarrow> read_workspace L bytes metadata_only = read_stream L f metadata_only"
  by (simp add: read_workspace_def)


section \<open>Legacy files\<close>

lemma second_line_single: "CHR 0x0A \<notin> set f \<Longrightarrow> second_line f = []"
  by (induction f) (auto simp: second_line_def split: prod.splits)

text \<open>
  Claim C2, as amended. For a file whose stream opens and whose second line the parser
  rejects with a \<^verbatim>\<open>JSONDecodeError\<close> (every file written on one line is such a file,
  when the parser rejects the empty text), \<open>read_workspace\<close> returns version
  \<^verbatim>\<open>0.9.0\<close> and an empty metadata object; asked for the payload, it parses the whole
  text as one document and returns it, or raises what the parser raises.
\<close>

theorem C2_legacy_fallback:
  assumes "open_func L bytes = Inr f"
    and "json_loads L (second_line f) = Inl JSONDecodeError"
  shows "read_workspace L bytes True = Inr (''0.9.0'', JObject [], None)
    \<and> read_workspace L bytes False =
        (case json_loads L f of
           Inl e \<Rightarrow> Inl e
         | Inr data \<Rightarrow> Inr (''0.9.0'', JObject [], Some data))"
  using assms
  by (simp add: read_workspace_open read_stream_legacy legacy_read_def)

text \<open>The legacy file of the second scenario, in both modes.\<close>

theorem C2_legacy_fallback_witness:
  \<open>open_func utf8_host ''{"foo":1}'' = Inr ''{"foo":1}''
   \<and> json_loads utf8_host (second_line ''{"foo":1}'') = Inl JSONDecodeError
   \<and> json_loads utf8_host ''{"foo":1}'' = Inr (JObject [(''foo'', JInt 1)])
   \<and> read_workspace utf8_host ''{"foo":1}'' True = Inr (''0.9.0'', JObject [], None)
   \<and> read_workspace utf8_host ''{"foo":1}'' False
       = Inr (''0.9.0'', JObject [], Some (JObject [(''foo'', JInt 1)]))\<close>
proof -
  have h1: \<open>open_func utf8_host ''{"foo":1}'' = Inr ''{"foo":1}''\<close>
    by (simp add: open_func_def utf8_host_def)
  have h2: \<open>json_loads utf8_host (second_line ''{"foo":1}'') = Inl JSONDecodeError\<close>
    by (simp add: second_line_def lib_eval)
  have h3: \<open>json_loads utf8_host ''{"foo":1}'' = Inr (JObject [(''foo'', JInt 1)])\<close>
    by (simp add: lib_eval)
  show ?thesis
    using C2_legacy_fallback [OF h1 h2] h1 h2 h3 by simp
qed

text \<open>
  Claim C2 as stated fails on a legacy file whose JSON value is spread over lines so that
  its second line is JSON by itself. The text below is one JSON value, an array; the
  reader takes its first line for a version and its second line for the metadata, and
  asked for the payload it raises on the third line.
\<close>

theorem C2_counterexample:
  \<open>json_loads utf8_host ''[\<newline>1\<newline>]'' = Inr (JArray [JInt 1])
   \<and> read_workspace utf8_host ''[\<newline>1\<newline>]'' True = Inr (''['', JInt 1, None)
   \<and> read_workspace utf8_host ''[\<newline>1\<newline>]'' False = Inl JSONDecodeError\<close>
  by (simp add: script_eval lib_eval)

section \<open>Versioned files\<close>



section \<open>Metadata-only mode\<close>



section \<open>Plain and gzip streams\<close>

lemma open_func_gzip:
  "take 2 bytes = [CHR 0x1F, CHR 0x8B] \<Longrightarrow>
     open_func L bytes =
       (case gzip_decompress L bytes of
          Inl e \<Rightarrow> Inl e
        | Inr raw \<Rightarrow>
            (case locale_decode L raw of
               Inl e \<Rightarrow> Inl e
             | Inr s \<Rightarrow> Inr (universal_newlines s)))"
  by (simp add: open_func_def)

lemma open_func_plain:
  "take 2 bytes \<noteq> [CHR 0x1F, CHR 0x8B] \<Longrightarrow>
     open_func L bytes =
       (case utf8_decode L bytes of
          Inl e \<Rightarrow> Inl e
        | Inr s \<Rightarrow> Inr (universal_newlines s))"
  by (simp add: open_func_def)

text \<open>
  Claim C5 (the code does not do all of this). The first two bytes alone choose the
  stream: a file that starts with \<^verbatim>\<open>1F 8B\<close> is decompressed and then decoded, any other
  file is decoded as UTF-8. But the two streams are not decoded alike: the plain one is
  opened with \<^verbatim>\<open>encoding='utf-8'\<close>, the gzip one with no encoding, which is the
  preferred encoding of the host. A gzip file is read as the plain file with its
  decompressed content when the host's encoding decodes that content as UTF-8 does.
\<close>

theorem C5_gzip_decoded_by_locale:
  assumes "take 2 gz = [CHR 0x1F, CHR 0x8B]"
    and "take 2 plain \<noteq> [CHR 0x1F, CHR 0x8B]"
    and "gzip_decompress L gz = Inr plain"
  shows "open_func L gz =
      (case locale_decode L plain of
         Inl e \<Rightarrow> Inl e
       | Inr s \<Rightarrow> Inr (universal_newlines s))
    \<and> open_func L plain =
      (case utf8_decode L plain of
         Inl e \<Rightarrow> Inl e
       | Inr s \<Rightarrow> Inr (universal_newlines s))
    \<and> (locale_decode L plain = utf8_decode L plain
        \<longrightarrow> read_workspace L gz metadata_only = read_workspace L plain metadata_only)"
  using assms
  by (simp add: open_func_gzip open_func_plain read_workspace_def)

text \<open>
  A versioned file whose header has a character outside ASCII, compressed and not, on a
  host whose preferred encoding is ISO-8859-1: the two reads differ in the metadata. On a
  host whose preferred encoding is UTF-8 they agree.
\<close>

theorem C5_gzip_decoded_by_locale_witness:
  "take 2 gz_accent_file = [CHR 0x1F, CHR 0x8B]
   \<and> take 2 accent_file \<noteq> [CHR 0x1F, CHR 0x8B]
   \<and> gzip_decompress latin1_host gz_accent_file = Inr accent_file
   \<and> gzip_decompress utf8_host gz_accent_file = Inr accent_file
   \<and> read_workspace latin1_host accent_file True
       = Inr (''0.9.0'', JObject [(''author'', JString [CHR 0xE9])], None)
   \<and> read_workspace latin1_host gz_accent_file True
       = Inr (''0.9.0'', JObject [(''author'', JString [CHR 0xC3, CHR 0xA9])], None)
   \<and> read_workspace utf8_host gz_accent_file True
       = Inr (''0.9.0'', JObject [(''author'', JString [CHR 0xE9])], None)"
proof -
  have m1: "take 2 gz_accent_file = [CHR 0x1F, CHR 0x8B]"
    by (simp add: gz_accent_file_def)
  have m2: "take 2 accent_file \<noteq> [CHR 0x1F, CHR 0x8B]"
    by (simp add: accent_file_def)
  have g: "gunzip_stored gz_accent_file = Inr accent_file"
    by (simp add: gz_accent_file_def accent_file_def lib_eval)
  have g1: "gzip_decompress latin1_host gz_accent_file = Inr accent_file"
    using g by (simp add: latin1_host_def)
  have g2: "gzip_decompress utf8_host gz_accent_file = Inr accent_file"
    using g by (simp add: utf8_host_def)
  have u: \<open>utf8_latin accent_file = Inr (''0.9.0\<newline>{"author":"'' @ [CHR 0xE9] @ ''"}\<newline>{}\<newline>'')\<close>
    by (simp add: accent_file_def)
  note T = C5_gzip_decoded_by_locale [OF m1 m2 g1, of True]
  note U = C5_gzip_decoded_by_locale [OF m1 m2 g2, of True]
  have o1: \<open>open_func latin1_host accent_file
      = Inr (universal_newlines (''0.9.0\<newline>{"author":"'' @ [CHR 0xE9] @ ''"}\<newline>{}\<newline>''))\<close>
    using T [THEN conjunct2, THEN conjunct1] u by (simp add: latin1_host_def)
  have o2: "open_func latin1_host gz_accent_file = Inr (universal_newlines accent_file)"
    using T [THEN conjunct1] by (simp add: latin1_host_def latin1_decode_def)
  have r1: "read_workspace latin1_host accent_file True
      = Inr (''0.9.0'', JObject [(''author'', JString [CHR 0xE9])], None)"
    using o1
    by (simp add: read_workspace_def read_stream_def try_header_def versioned_read_def
        strip_def isspace_def latin1_host_def loads_def skip_ws_def json_ws_def)
  have r2: "read_workspace latin1_host gz_accent_file True
      = Inr (''0.9.0'', JObject [(''author'', JString [CHR 0xC3, CHR 0xA9])], None)"
    using o2
    by (simp add: read_workspace_def read_stream_def try_header_def versioned_read_def
        strip_def isspace_def latin1_host_def loads_def skip_ws_def json_ws_def accent_file_def)
  have "locale_decode utf8_host accent_file = utf8_decode utf8_host accent_file"
    by (simp add: utf8_host_def)
  with U have "read_workspace utf8_host gz_accent_file True
      = read_workspace utf8_host accent_file True"
    by blast
  also have "read_workspace utf8_host accent_file True
      = Inr (''0.9.0'', JObject [(''author'', JString [CHR 0xE9])], None)"
    by (simp add: accent_file_def script_eval lib_eval)
  finally have r3: "read_workspace utf8_host gz_accent_file True
      = Inr (''0.9.0'', JObject [(''author'', JString [CHR 0xE9])], None)" .
  show ?thesis
    by (intro conjI m1 m2 g1 g2 r1 r2 r3)
qed

text \<open>
  Claim C9, as amended. A file that starts with \<^verbatim>\<open>1F 8B\<close> and whose content decompresses
  and decodes is read as the stream of its decoded text is, in either mode: how the stream
  is obtained has no part in choosing between the versioned and the legacy path. So when
  the parser rejects the second line of the decoded text with a \<^verbatim>\<open>JSONDecodeError\<close>, as
  for a legacy file written on one line, the read returns version \<^verbatim>\<open>0.9.0\<close> and empty
  metadata, and with the payload the whole decoded text parsed as one document.
\<close>

theorem C9_gzip_legacy:
  assumes "take 2 bytes = [CHR 0x1F, CHR 0x8B]"
    and "gzip_decompress L bytes = Inr raw"
    and "locale_decode L raw = Inr s"
    and "json_loads L (second_line (universal_newlines s)) = Inl JSONDecodeError"
  shows "read_workspace L bytes metadata_only = read_stream L (universal_newlines s) metadata_only
    \<and> read_workspace L bytes True = Inr (''0.9.0'', JObject [], None)
    \<and> read_workspace L bytes False =
        (case json_loads L (universal_newlines s) of
           Inl e \<Rightarrow> Inl e
         | Inr data \<Rightarrow> Inr (''0.9.0'', JObject [], Some data))"
proof -
  have o: "open_func L bytes = Inr (universal_newlines s)"
    using assms(1-3) by (simp add: open_func_gzip)
  show ?thesis
    using assms(4)
    by (simp add: read_workspace_open [OF o] read_stream_legacy legacy_read_def)
qed

text \<open>The legacy file of the second scenario, compressed.\<close>

theorem C9_gzip_legacy_witness:
  \<open>take 2 gz_legacy_file = [CHR 0x1F, CHR 0x8B]
   \<and> gzip_decompress utf8_host gz_legacy_file = Inr ''{"foo":1}''
   \<and> locale_decode utf8_host ''{"foo":1}'' = Inr ''{"foo":1}''
   \<and> json_loads utf8_host (second_line (universal_newlines ''{"foo":1}'')) = Inl JSONDecodeError
   \<and> read_workspace utf8_host gz_legacy_file True = Inr (''0.9.0'', JObject [], None)
   \<and> read_workspace utf8_host gz_legacy_file False
       = Inr (''0.9.0'', JObject [], Some (JObject [(''foo'', JInt 1)]))\<close>
proof -
  have h1: "take 2 gz_legacy_file = [CHR 0x1F, CHR 0x8B]"
    by (simp add: gz_legacy_file_def)
  have h2: \<open>gzip_decompress utf8_host gz_legacy_file = Inr ''{"foo":1}''\<close>
    by (simp add: gz_legacy_file_def lib_eval)
  have h3: \<open>locale_decode utf8_host ''{"foo":1}'' = Inr ''{"foo":1}''\<close>
    by (simp add: utf8_host_def)
  have h4: \<open>json_loads utf8_host (second_line (universal_newlines ''{"foo":1}''))
      = Inl JSONDecodeError\<close>
    by (simp add: second_line_def lib_eval)
  have h5: \<open>json_loads utf8_host (universal_newlines ''{"foo":1}'')
      = Inr (JObject [(''foo'', JInt 1)])\<close>
    by (simp add: lib_eval)
  note T = C9_gzip_legacy [OF h1 h2 h3 h4]
  have r1: "read_workspace utf8_host gz_legacy_file True = Inr (''0.9.0'', JObject [], None)"
    by (rule T [THEN conjunct2, THEN conjunct1])
  have r2: "read_workspace utf8_host gz_legacy_file False
      = Inr (''0.9.0'', JObject [], Some (JObject [(''foo'', JInt 1)]))"
    using T [THEN conjunct2, THEN conjunct2] h5 by (simp only: sum.case)
  show ?thesis
    by (intro conjI h1 h2 h3 h4 r1 r2)
qed

text \<open>
  Claim C9 as stated fails on a compressed legacy file whose JSON value is spread over
  lines so that its second line is JSON by itself. The file below decompresses to one JSON
  value, an array on three lines; it is read as a versioned file.
\<close>

theorem C9_counterexample:
  \<open>take 2 gz_array_file = [CHR 0x1F, CHR 0x8B]
   \<and> gzip_decompress utf8_host gz_array_file = Inr ''[\<newline>1\<newline>]''
   \<and> json_loads utf8_host ''[\<newline>1\<newline>]'' = Inr (JArray [JInt 1])
   \<and> read_workspace utf8_host gz_array_file True = Inr (''['', JInt 1, None)\<close>
  by (simp add: gz_array_file_def script_eval lib_eval)

section \<open>The walker, one child at a time\<close>

text \<open>
  The loop tests the full path of a child for the extension; since the extension has no
  separator in it, that is a test of the child's name.
\<close>

lemma endswith_iff: "endswith s suf \<longleftrightarrow> (\<exists>ys. s = ys @ suf)"
proof
  assume "endswith s suf"
  then have "s = take (length s - length suf) s @ suf"
    by (metis append_take_drop_id endswith_def)
  then show "\<exists>ys. s = ys @ suf" ..
next
  assume "\<exists>ys. s = ys @ suf"
  then show "endswith s suf"
    by (auto simp: endswith_def)
qed

lemma endswith_sep:
  assumes "CHR ''/'' \<notin> set suf"
  shows "endswith (a @ CHR ''/'' # p) suf = endswith p suf"
proof
  assume "endswith (a @ CHR ''/'' # p) suf"
  then obtain ys where ys: "a @ CHR ''/'' # p = ys @ suf"
    by (auto simp: endswith_iff)
  then consider us where "a = ys @ us" "us @ CHR ''/'' # p = suf"
    | us where "a @ us = ys" "CHR ''/'' # p = us @ suf"
    by (auto simp: append_eq_append_conv2)
  then show "endswith p suf"
  proof cases
    case 1
    then have "CHR ''/'' \<in> set suf" by auto
    with assms show ?thesis by simp
  next
    case 2
    show ?thesis
    proof (cases us)
      case Nil
      with 2 have "CHR ''/'' \<in> set suf" by auto
      with assms show ?thesis by simp
    next
      case (Cons u us')
      with 2 have "p = us' @ suf" by simp
      then show ?thesis by (auto simp: endswith_iff)
    qed
  qed
next
  assume "endswith p suf"
  then obtain ys where "p = ys @ suf" by (auto simp: endswith_iff)
  then have "a @ CHR ''/'' # p = (a @ CHR ''/'' # ys) @ suf" by simp
  then show "endswith (a @ CHR ''/'' # p) suf"
    unfolding endswith_iff by blast
qed

lemma endswith_join:
  "endswith (os_path_join path p) ''.grapycal'' = endswith p ''.grapycal''"
proof -
  have sep: "CHR ''/'' \<notin> set ''.grapycal''" by simp
  consider "take 1 p = ''/''" | "take 1 p \<noteq> ''/''" "path = []"
    | "take 1 p \<noteq> ''/''" "path \<noteq> []" "endswith path ''/''"
    | "take 1 p \<noteq> ''/''" "path \<noteq> []" "\<not> endswith path ''/''"
    by blast
  then show ?thesis
  proof cases
    case 3
    then obtain a where "path = a @ ''/''" by (auto simp: endswith_iff)
    with 3 show ?thesis
      using endswith_sep [OF sep, of a p] by (simp add: os_path_join_def)
  next
    case 4
    then show ?thesis
      using endswith_sep [OF sep, of path p] by (simp add: os_path_join_def)
  qed (simp_all add: os_path_join_def)
qed

lemma dir_loop_Cons:
  "dir_loop L path ((p, node) # rest) folders files log =
     (case node of
        Dir children \<Rightarrow>
          (case process_dir L (os_path_join path p) children log of
             (log', Inl e) \<Rightarrow> (log', Inl e)
           | (log', Inr d) \<Rightarrow> dir_loop L path rest (folders @ [d]) files log')
      | File bytes \<Rightarrow>
          if endswith p ''.grapycal'' then
            (case read_workspace L bytes True of
               Inl e \<Rightarrow> (log @ [ReadWorkspace (os_path_join path p)], Inl e)
             | Inr (version, metadata, _) \<Rightarrow>
                 (case setitem metadata ''name'' (JString p) of
                    Inl e \<Rightarrow> (log @ [ReadWorkspace (os_path_join path p)], Inl e)
                  | Inr entry \<Rightarrow>
                      dir_loop L path rest folders (files @ [entry])
                        (log @ [ReadWorkspace (os_path_join path p)])))
          else dir_loop L path rest folders files log
      | Other \<Rightarrow> dir_loop L path rest folders files log)"
  by (cases node) (simp_all add: endswith_join Let_def)


declare dir_loop.simps(2) [simp del]

declare process_dir.simps [simp del]

lemma add_lists_add_lists [simp]:
  "add_lists fo fi (add_lists fo' fi' r) = add_lists (fo @ fo') (fi @ fi') r"
  by (cases r) auto

lemma add_lists_Nil [simp]: "add_lists [] [] r = r"
  by (cases r) auto

text \<open>
  The log and the lists are threaded through: a call from any log and any lists does what
  the call from empty ones does, appended.
\<close>

lemma threading:
  fixes log :: "event list" and folders files :: "json list"
  shows "\<forall>log'. process_dir L path children log'
      = (log' @ scan_calls L path children, scan_directory L path children)"
    and "\<forall>folders' files' log'. dir_loop L path entries folders' files' log'
      = (log' @ loop_calls L path entries,
         add_lists folders' files' (loop_result L path entries))"
proof (induction L path children log and L path entries folders files log
    rule: process_dir_dir_loop.induct)
  case (1 L path children log)
  have IH: "dir_loop L path children [] [] lg
      = (lg @ loop_calls L path children, add_lists [] [] (loop_result L path children))"
    for lg
    using 1 by blast
  show ?case
    by (cases "loop_result L path children")
      (auto simp: scan_calls_def scan_directory_def process_dir.simps IH)
next
  case (2 L path folders files log)
  show ?case
    by (simp add: loop_calls_def loop_result_def)
next
  case (3 L path p node rest folders files log)
  let ?es = "(p, node) # rest"
  let ?full = "os_path_join path p"
  note defs = loop_calls_def [of L path "x # rest" for x] loop_result_def [of L path "x # rest" for x]
  show ?case
  proof (cases node)
    case (File bytes)
    show ?thesis
    proof (cases "endswith p ''.grapycal''")
      case False
      have IH: "dir_loop L path rest fo fi lg
          = (lg @ loop_calls L path rest, add_lists fo fi (loop_result L path rest))"
        for fo fi lg
      proof -
        have ne: "\<not> endswith ?full ''.grapycal''"
          using False by (simp add: endswith_join)
        from 3(2) [OF refl File ne] show ?thesis
          by blast
      qed
      have c: "loop_calls L path ?es = loop_calls L path rest"
        by (simp add: defs dir_loop_Cons File False IH)
      have r: "loop_result L path ?es = loop_result L path rest"
        by (simp add: defs dir_loop_Cons File False IH)
      show ?thesis
        by (simp add: dir_loop_Cons File False IH c [unfolded File] r [unfolded File])
    next
      case True
      show ?thesis
      proof (cases "read_workspace L bytes True")
        case (Inl e)
        with File True show ?thesis
          by (simp add: defs dir_loop_Cons)
      next
        case (Inr b)
        obtain version metadata data where b: "b = (version, metadata, data)"
          by (cases b) auto
        show ?thesis
        proof (cases "setitem metadata ''name'' (JString p)")
          case (Inl e)
          with File True \<open>read_workspace L bytes True = Inr b\<close> b show ?thesis
            by (simp add: defs dir_loop_Cons)
        next
          case (Inr entry)
          note rw = \<open>read_workspace L bytes True = Inr b\<close>
          have IH: "dir_loop L path rest fo fi lg
              = (lg @ loop_calls L path rest, add_lists fo fi (loop_result L path rest))"
            for fo fi lg
          proof -
            have e: "endswith ?full ''.grapycal''"
              using True by (simp add: endswith_join)
            from 3(1) [OF refl File e rw b [symmetric] refl Inr] show ?thesis
              by blast
          qed
          have c: "loop_calls L path ?es = ReadWorkspace ?full # loop_calls L path rest"
            by (simp add: defs dir_loop_Cons File True rw b Inr IH)
          have r: "loop_result L path ?es = add_lists [] [entry] (loop_result L path rest)"
            by (simp add: defs dir_loop_Cons File True rw b Inr IH)
          show ?thesis
            by (simp add: dir_loop_Cons File True rw b Inr IH c [unfolded File] r [unfolded File])
        qed
      qed
    qed
  next
    case (Dir children)
    have IH1: "process_dir L ?full children lg
        = (lg @ scan_calls L ?full children, scan_directory L ?full children)" for lg
      using 3(3) [OF refl Dir] by blast
    show ?thesis
    proof (cases "scan_directory L ?full children")
      case (Inl e)
      with Dir show ?thesis
        by (simp add: defs dir_loop_Cons IH1)
    next
      case (Inr d)
      have IH: "dir_loop L path rest fo fi lg
          = (lg @ loop_calls L path rest, add_lists fo fi (loop_result L path rest))"
        for fo fi lg
      proof -
        have "(log @ scan_calls L ?full children, scan_directory L ?full children)
            = process_dir L ?full children log"
          by (simp only: IH1)
        from 3(4) [OF refl Dir this Inr] show ?thesis
          by blast
      qed
      have c: "loop_calls L path ?es = scan_calls L ?full children @ loop_calls L path rest"
        by (simp add: defs dir_loop_Cons Dir IH1 Inr IH)
      have r: "loop_result L path ?es = add_lists [d] [] (loop_result L path rest)"
        by (simp add: defs dir_loop_Cons Dir IH1 Inr IH)
      show ?thesis
        by (simp add: dir_loop_Cons Dir IH1 Inr IH c [unfolded Dir] r [unfolded Dir])
    qed
  next
    case Other
    have IH: "dir_loop L path rest fo fi lg
        = (lg @ loop_calls L path rest, add_lists fo fi (loop_result L path rest))"
      for fo fi lg
      using 3(5) [OF refl Other] by blast
    have c: "loop_calls L path ?es = loop_calls L path rest"
      by (simp add: defs dir_loop_Cons Other IH)
    have r: "loop_result L path ?es = loop_result L path rest"
      by (simp add: defs dir_loop_Cons Other IH)
    show ?thesis
      by (simp add: dir_loop_Cons Other IH c [unfolded Other] r [unfolded Other])
  qed
qed

lemma scan_directory_eq:
  "scan_directory L path children =
     (case loop_result L path children of
        Inl e \<Rightarrow> Inl e
      | Inr (folders, files) \<Rightarrow>
          Inr (JObject [(''name'', JString (os_path_basename path)),
                        (''files'', JArray files),
                        (''dirs'', JArray folders)]))"
proof -
  have "dir_loop L path children [] [] [Listdir path]
      = ([Listdir path] @ loop_calls L path children, loop_result L path children)"
    using threading(2) [of L path children] by simp
  then show ?thesis
    by (simp add: scan_directory_def process_dir.simps split: sum.splits prod.splits)
qed


lemma loop_result_Nil [simp]: "loop_result L path [] = Inr ([], [])"
  by (simp add: loop_result_def)

lemma loop_calls_Nil [simp]: "loop_calls L path [] = []"
  by (simp add: loop_calls_def)

lemma loop_Dir:
  "loop_result L path ((p, Dir children) # rest) =
     (case scan_directory L (os_path_join path p) children of
        Inl e \<Rightarrow> Inl e
      | Inr d \<Rightarrow> add_lists [d] [] (loop_result L path rest))"
  "loop_calls L path ((p, Dir children) # rest) =
     scan_calls L (os_path_join path p) children @
     (case scan_directory L (os_path_join path p) children of
        Inl e \<Rightarrow> []
      | Inr d \<Rightarrow> loop_calls L path rest)"
  using threading(1) [of L "os_path_join path p" children] threading(2) [of L path rest]
  by (simp_all add: loop_result_def [of L path "x # rest" for x]
      loop_calls_def [of L path "x # rest" for x] dir_loop_Cons split: sum.splits)

lemma loop_File_skip:
  assumes "\<not> endswith p ''.grapycal''"
  shows "loop_result L path ((p, File bytes) # rest) = loop_result L path rest"
    and "loop_calls L path ((p, File bytes) # rest) = loop_calls L path rest"
  using assms threading(2) [of L path rest]
  by (simp_all add: loop_result_def [of L path "x # rest" for x]
      loop_calls_def [of L path "x # rest" for x] dir_loop_Cons)

lemma loop_Other:
  "loop_result L path ((p, Other) # rest) = loop_result L path rest"
  "loop_calls L path ((p, Other) # rest) = loop_calls L path rest"
  using threading(2) [of L path rest]
  by (simp_all add: loop_result_def [of L path "x # rest" for x]
      loop_calls_def [of L path "x # rest" for x] dir_loop_Cons)

lemma loop_File:
  assumes "endswith p ''.grapycal''"
  shows "loop_result L path ((p, File bytes) # rest) =
     (case read_workspace L bytes True of
        Inl e \<Rightarrow> Inl e
      | Inr (version, metadata, data) \<Rightarrow>
          (case setitem metadata ''name'' (JString p) of
             Inl e \<Rightarrow> Inl e
           | Inr entry \<Rightarrow> add_lists [] [entry] (loop_result L path rest)))"
    and "loop_calls L path ((p, File bytes) # rest) =
     ReadWorkspace (os_path_join path p) #
     (case entry_error L bytes p of Some e \<Rightarrow> [] | None \<Rightarrow> loop_calls L path rest)"
  using assms threading(2) [of L path rest]
  by (simp_all add: loop_result_def [of L path "x # rest" for x]
      loop_calls_def [of L path "x # rest" for x] dir_loop_Cons entry_error_def
      split: sum.splits prod.splits)

lemma isl_add_lists [simp]: "isl (add_lists ds fs x) = isl x"
  by (cases x) auto


lemma add_lists_Inl_iff [simp]: "(add_lists ds fs x = Inl e) = (x = Inl e)"
  by (cases x) auto



lemma entry_error_None:
  "entry_error L bytes p = None \<longleftrightarrow>
     (\<exists>version kvs data. read_workspace L bytes True = Inr (version, JObject kvs, data))"
proof (cases "read_workspace L bytes True")
  case (Inl e)
  then show ?thesis by (simp add: entry_error_def)
next
  case (Inr b)
  obtain version metadata data where "b = (version, metadata, data)"
    by (cases b) auto
  with Inr show ?thesis
    by (cases metadata) (simp_all add: entry_error_def)
qed






lemma map_of_dict_set: "k' \<noteq> k \<Longrightarrow> map_of (dict_set k v kvs) k' = map_of kvs k'"
  by (induction kvs) auto

lemma map_of_dict_set_same: "map_of (dict_set k v kvs) k = Some v"
  by (induction kvs) auto

lemma loop_lists:
  assumes "loop_result L path entries = Inr (ds, fs)"
  shows "list_all2
      (\<lambda>(p, bytes) entry. endswith p ''.grapycal''
         \<and> (\<exists>version kvs data.
               read_workspace L bytes True = Inr (version, JObject kvs, data)
               \<and> entry = JObject (dict_set ''name'' (JString p) kvs)))
      (workspace_files entries) fs
    \<and> list_all2 (\<lambda>(p, children) d. scan_directory L (os_path_join path p) children = Inr d)
      (subdirs entries) ds"
  using assms
proof (induction entries arbitrary: ds fs)
  case Nil
  then show ?case by simp
next
  case (Cons x rest)
  obtain p node where x: "x = (p, node)" by (cases x)
  show ?case
  proof (cases node)
    case (File bytes)
    show ?thesis
    proof (cases "endswith p ''.grapycal''")
      case False
      with Cons x File show ?thesis
        by (simp add: loop_File_skip)
    next
      case True
      from Cons.prems x File True
      have "entry_error L bytes p = None"
        by (auto simp: loop_File entry_error_def split: sum.splits prod.splits)
      then obtain version kvs data
        where rw: "read_workspace L bytes True = Inr (version, JObject kvs, data)"
        by (auto simp: entry_error_None)
      with Cons.prems x File True
      obtain fs' where r: "loop_result L path rest = Inr (ds, fs')"
        and fs: "fs = JObject (dict_set ''name'' (JString p) kvs) # fs'"
        by (cases "loop_result L path rest") (auto simp: loop_File)
      from Cons.IH [OF r] x File True rw fs show ?thesis
        by simp
    qed
  next
    case (Dir children)
    from Cons.prems x Dir
    obtain d where d: "scan_directory L (os_path_join path p) children = Inr d"
      by (cases "scan_directory L (os_path_join path p) children") (auto simp: loop_Dir)
    with Cons.prems x Dir
    obtain ds' where r: "loop_result L path rest = Inr (ds', fs)" and ds: "ds = d # ds'"
      by (cases "loop_result L path rest") (auto simp: loop_Dir)
    from Cons.IH [OF r] x Dir d ds show ?thesis
      by simp
  next
    case Other
    with Cons x show ?thesis
      by (simp add: loop_Other)
  qed
qed

lemma loop_filter_relevant:
  "loop_result L path (filter relevant entries) = loop_result L path entries"
proof (induction entries)
  case Nil
  show ?case by simp
next
  case (Cons x rest)
  obtain p node where x: "x = (p, node)" by (cases x)
  show ?case
  proof (cases node)
    case (File bytes)
    with Cons x show ?thesis
      by (cases "endswith p ''.grapycal''")
        (simp_all add: loop_File loop_File_skip split: sum.splits prod.splits)
  next
    case (Dir children)
    with Cons x show ?thesis
      by (simp add: loop_Dir split: sum.splits)
  next
    case Other
    with Cons x show ?thesis
      by (simp add: loop_Other)
  qed
qed


section \<open>What a file entry holds\<close>

text \<open>
  Claim C1 (the code does not do this). \<open>process_dir\<close> takes the version from
  \<open>read_workspace\<close> and does not use it: the entry of a workspace file is the header
  object with \<^verbatim>\<open>name\<close> set, so it has a \<^verbatim>\<open>version\<close> field exactly when the header
  object itself has one. Stated for a directory with one workspace file.
\<close>

theorem C1_version_not_recorded:
  assumes "endswith p ''.grapycal''"
    and "read_workspace L bytes True = Inr (version, JObject kvs, data)"
  shows "scan_directory L path [(p, File bytes)] =
      Inr (JObject [(''name'', JString (os_path_basename path)),
                    (''files'', JArray [JObject (dict_set ''name'' (JString p) kvs)]),
                    (''dirs'', JArray [])])
    \<and> map_of (dict_set ''name'' (JString p) kvs) ''version'' = map_of kvs ''version''"
  using assms
  by (simp add: scan_directory_eq loop_File map_of_dict_set)

text \<open>
  The directory of the first scenario. The reader returns version \<^verbatim>\<open>0.9.0\<close>; the entry
  has the fields \<^verbatim>\<open>extensions\<close> and \<^verbatim>\<open>name\<close> and no \<^verbatim>\<open>version\<close>.
\<close>

theorem C1_version_not_recorded_witness:
  "endswith ''a.grapycal'' ''.grapycal''
   \<and> read_workspace utf8_host versioned_file True
       = Inr (''0.9.0'', JObject [(''extensions'', JArray [JString ''grapycal_torch''])], None)
   \<and> scan_directory utf8_host ''ws'' [(''a.grapycal'', File versioned_file)] =
       Inr (JObject
         [(''name'', JString ''ws''),
          (''files'', JArray [JObject [(''extensions'', JArray [JString ''grapycal_torch'']),
                                       (''name'', JString ''a.grapycal'')]]),
          (''dirs'', JArray [])])
   \<and> map_of [(''extensions'', JArray [JString ''grapycal_torch'']),
              (''name'', JString ''a.grapycal'')] ''version'' = None"
proof -
  have h1: "endswith ''a.grapycal'' ''.grapycal''"
    by (simp add: endswith_def)
  have h2: "read_workspace utf8_host versioned_file True
      = Inr (''0.9.0'', JObject [(''extensions'', JArray [JString ''grapycal_torch''])], None)"
    by (simp add: versioned_file_def script_eval lib_eval)
  have b: "os_path_basename ''ws'' = ''ws''"
    by (simp add: os_path_basename_def)
  from C1_version_not_recorded [OF h1 h2, of "''ws''"] h1 h2 b show ?thesis
    by simp
qed

section \<open>The trigger of the legacy fallback\<close>



section \<open>What a directory record holds\<close>

text \<open>
  Claim C7. The walk of a directory does what the walk of the directory without its
  irrelevant children does (those that are neither a directory nor a regular file with a
  name ending in \<^verbatim>\<open>.grapycal\<close>): they change nothing, and none of them is an error.
  When the walk returns a record, its \<^verbatim>\<open>files\<close> list has one entry for each workspace file among the children, in listing
  order, which is the header object of that file with \<^verbatim>\<open>name\<close> set to its name, a name
  ending in \<^verbatim>\<open>.grapycal\<close>; its \<^verbatim>\<open>dirs\<close> list has one record for each child directory,
  in listing order, which is what the walk of that directory returns.
\<close>

theorem C7_files_and_dirs:
  "scan_directory L path (filter relevant children) = scan_directory L path children
   \<and> (\<forall>r. scan_directory L path children = Inr r \<longrightarrow>
        (\<exists>files dirs.
           r = JObject [(''name'', JString (os_path_basename path)),
                        (''files'', JArray files),
                        (''dirs'', JArray dirs)]
           \<and> list_all2
               (\<lambda>(p, bytes) entry. endswith p ''.grapycal''
                  \<and> (\<exists>version kvs data.
                        read_workspace L bytes True = Inr (version, JObject kvs, data)
                        \<and> entry = JObject (dict_set ''name'' (JString p) kvs)
                        \<and> map_of (dict_set ''name'' (JString p) kvs) ''name''
                            = Some (JString p)))
               (workspace_files children) files
           \<and> list_all2
               (\<lambda>(p, children') d. scan_directory L (os_path_join path p) children' = Inr d)
               (subdirs children) dirs))"
proof -
  have ignored: "scan_directory L path (filter relevant children)
      = scan_directory L path children"
    by (simp add: scan_directory_eq loop_filter_relevant)
  have shape: "\<exists>files dirs.
      r = JObject [(''name'', JString (os_path_basename path)),
                   (''files'', JArray files),
                   (''dirs'', JArray dirs)]
      \<and> list_all2
          (\<lambda>(p, bytes) entry. endswith p ''.grapycal''
             \<and> (\<exists>version kvs data.
                   read_workspace L bytes True = Inr (version, JObject kvs, data)
                   \<and> entry = JObject (dict_set ''name'' (JString p) kvs)
                   \<and> map_of (dict_set ''name'' (JString p) kvs) ''name'' = Some (JString p)))
          (workspace_files children) files
      \<and> list_all2
          (\<lambda>(p, children') d. scan_directory L (os_path_join path p) children' = Inr d)
          (subdirs children) dirs"
    if "scan_directory L path children = Inr r" for r
  proof -
    from that obtain ds fs where lr: "loop_result L path children = Inr (ds, fs)"
      and r: "r = JObject [(''name'', JString (os_path_basename path)),
                           (''files'', JArray fs), (''dirs'', JArray ds)]"
      by (auto simp: scan_directory_eq split: sum.splits prod.splits)
    from loop_lists [OF lr]
    have fs: "list_all2
        (\<lambda>(p, bytes) entry. endswith p ''.grapycal''
           \<and> (\<exists>version kvs data.
                 read_workspace L bytes True = Inr (version, JObject kvs, data)
                 \<and> entry = JObject (dict_set ''name'' (JString p) kvs)
                 \<and> map_of (dict_set ''name'' (JString p) kvs) ''name'' = Some (JString p)))
        (workspace_files children) fs"
      by (auto elim!: list_all2_mono simp: map_of_dict_set_same)
    from loop_lists [OF lr]
    have ds: "list_all2
        (\<lambda>(p, children') d. scan_directory L (os_path_join path p) children' = Inr d)
        (subdirs children) ds"
      by blast
    from r fs ds show ?thesis
      by blast
  qed
  from ignored shape show ?thesis
    by blast
qed

text \<open>
  A directory with a workspace file, a text file, a subdirectory holding a legacy file, and
  a child that is neither file nor directory.
\<close>

theorem C7_files_and_dirs_witness:
  "scan_directory utf8_host ''ws'' ws_tree =
      Inr (JObject
        [(''name'', JString ''ws''),
         (''files'', JArray [JObject [(''extensions'', JArray [JString ''grapycal_torch'']),
                                      (''name'', JString ''a.grapycal'')]]),
         (''dirs'', JArray [JObject [(''name'', JString ''folder1''),
                                     (''files'', JArray [JObject [(''name'', JString ''b.grapycal'')]]),
                                     (''dirs'', JArray [])]])])
   \<and> filter relevant ws_tree =
        [(''a.grapycal'', File versioned_file),
         (''folder1'', Dir [(''b.grapycal'', File legacy_file)])]
   \<and> workspace_files ws_tree = [(''a.grapycal'', versioned_file)]
   \<and> subdirs ws_tree = [(''folder1'', [(''b.grapycal'', File legacy_file)])]
   \<and> scan_directory utf8_host ''ws'' (filter relevant ws_tree)
       = scan_directory utf8_host ''ws'' ws_tree
   \<and> (\<exists>files dirs.
          JObject
            [(''name'', JString ''ws''),
             (''files'', JArray [JObject [(''extensions'', JArray [JString ''grapycal_torch'']),
                                          (''name'', JString ''a.grapycal'')]]),
             (''dirs'', JArray [JObject [(''name'', JString ''folder1''),
                                         (''files'', JArray [JObject [(''name'', JString ''b.grapycal'')]]),
                                         (''dirs'', JArray [])]])]
            = JObject [(''name'', JString (os_path_basename ''ws'')),
                       (''files'', JArray files),
                       (''dirs'', JArray dirs)]
          \<and> list_all2
              (\<lambda>(p, bytes) entry. endswith p ''.grapycal''
                 \<and> (\<exists>version kvs data.
                       read_workspace utf8_host bytes True = Inr (version, JObject kvs, data)
                       \<and> entry = JObject (dict_set ''name'' (JString p) kvs)
                       \<and> map_of (dict_set ''name'' (JString p) kvs) ''name''
                           = Some (JString p)))
              (workspace_files ws_tree) files
          \<and> list_all2
              (\<lambda>(p, children') d.
                 scan_directory utf8_host (os_path_join ''ws'' p) children' = Inr d)
              (subdirs ws_tree) dirs)"
proof -
  have h: "scan_directory utf8_host ''ws'' ws_tree =
      Inr (JObject
        [(''name'', JString ''ws''),
         (''files'', JArray [JObject [(''extensions'', JArray [JString ''grapycal_torch'']),
                                      (''name'', JString ''a.grapycal'')]]),
         (''dirs'', JArray [JObject [(''name'', JString ''folder1''),
                                     (''files'', JArray [JObject [(''name'', JString ''b.grapycal'')]]),
                                     (''dirs'', JArray [])]])])"
    by (simp add: example_eval walk_eval script_eval lib_eval)
  have f: "filter relevant ws_tree =
        [(''a.grapycal'', File versioned_file),
         (''folder1'', Dir [(''b.grapycal'', File legacy_file)])]"
    by (simp add: ws_tree_def endswith_def)
  have w: "workspace_files ws_tree = [(''a.grapycal'', versioned_file)]"
    by (simp add: ws_tree_def endswith_def)
  have s: "subdirs ws_tree = [(''folder1'', [(''b.grapycal'', File legacy_file)])]"
    by (simp add: ws_tree_def)
  note T = C7_files_and_dirs [of utf8_host "''ws''" ws_tree]
  show ?thesis
    by (intro conjI h f w s T [THEN conjunct1] T [THEN conjunct2, rule_format, OF h])
qed

section \<open>Errors abort the walk\<close>




section \<open>The calls of a walk\<close>




end
